theory Spec2Isabelle
  imports Complex_Main
begin

section \<open>ReactorX: the adiabatic equilibrium calculator\<close>

text \<open>
  A shallow embedding of \<^verbatim>\<open>src/src/AdiabticEquilibriumCalculator.jsx\<close>: the three
  formulas of the equilibrium model, the damped Newton search of one reactor stage
  (\<^verbatim>\<open>solveForIntersection\<close>), and the handler \<^verbatim>\<open>runCalculation\<close> that chains the
  stages and stores the outcome in the component's state.

  Numbers. A JavaScript number is modelled as a \<^typ>\<open>real\<close>, the domain the
  specification itself speaks about. Rounding, overflow, infinities and NaN of IEEE
  doubles are therefore outside this development; where a division by zero would
  occur in the program (\<open>deltaH = 0\<close>, a temperature of \<open>0\<close>, \<open>1 + k = 0\<close>) HOL's
  \<open>x / 0 = 0\<close> stands in for the program's infinity or NaN. The control flow
  (comparisons, branches, loop bounds, the clamp) is the program's. Where a theorem
  bounds a computed value, it is stated in a form that double arithmetic preserves:
  bounds are not strict, hypotheses exclude the divisions by zero, and a bound is
  written as the failure of the opposite comparison, which a NaN satisfies as well.
  The concrete runs are chosen away from the boundaries of the tests \<open>> 100\<close> and
  \<open>< startingTemp\<close>, so that rounding does not change their branches.
\<close>

subsection \<open>Constants\<close>

definition R_VALUE :: real where
  "R_VALUE = 1.987"

definition ITER_MAX :: nat where
  "ITER_MAX = 50"

definition TOLERANCE :: real where
  "TOLERANCE = 0.0001"

definition STAGE_LIMIT :: nat where
  "STAGE_LIMIT = 5"

subsection \<open>Equilibrium model\<close>

definition computeK :: "real \<Rightarrow> real \<Rightarrow> real \<Rightarrow> real" where
  "computeK t baseK deltaH =
     (let expTerm = (deltaH / R_VALUE) * (1 / 298 - 1 / t)
      in baseK * exp expTerm)"

definition computeThermodynamicConversion :: "real \<Rightarrow> real \<Rightarrow> real \<Rightarrow> real" where
  "computeThermodynamicConversion t baseK deltaH =
     (let k = computeK t baseK deltaH
      in k / (1 + k))"

definition computeEnergyBalanceConversion :: "real \<Rightarrow> real \<Rightarrow> real \<Rightarrow> real \<Rightarrow> real" where
  "computeEnergyBalanceConversion t initialTemp heatCapacity deltaH =
     (heatCapacity * (t - initialTemp)) / \<bar>deltaH\<bar>"

subsection \<open>The single-stage solver\<close>

record reactorParams =
  baseK :: real
  deltaH :: real
  heatCapacity :: real

record stageResult =
  eqTemp :: real
  conversion :: real
  iterations :: nat

text \<open>
  The two closures of \<^verbatim>\<open>solveForIntersection\<close>; what they capture (the coefficients,
  the cumulative conversion and the stage's starting temperature) is passed explicitly.
\<close>

definition objectiveFunction :: "reactorParams \<Rightarrow> real \<Rightarrow> real \<Rightarrow> real \<Rightarrow> real" where
  "objectiveFunction p cumulativeConversion startingTemp t =
     computeThermodynamicConversion t (baseK p) (deltaH p) -
     (cumulativeConversion +
      computeEnergyBalanceConversion t startingTemp (heatCapacity p) (deltaH p))"

definition calculateDerivative :: "reactorParams \<Rightarrow> real \<Rightarrow> real \<Rightarrow> real \<Rightarrow> real" where
  "calculateDerivative p cumulativeConversion startingTemp t =
     (let delta = 0.01
      in (objectiveFunction p cumulativeConversion startingTemp (t + delta) -
          objectiveFunction p cumulativeConversion startingTemp t) / delta)"

text \<open>
  One pass through the body of the \<^verbatim>\<open>while\<close> loop after the tolerance test has
  failed: the nudge by 10 on a flat derivative, the Newton step (halved when it is
  longer than 100), then the clamp.
\<close>

definition newtonUpdate :: "reactorParams \<Rightarrow> real \<Rightarrow> real \<Rightarrow> real \<Rightarrow> real" where
  "newtonUpdate p cumulativeConversion startingTemp t =
     (let fValue = objectiveFunction p cumulativeConversion startingTemp t;
          derivative = calculateDerivative p cumulativeConversion startingTemp t;
          t' = (if \<bar>derivative\<bar> < 1 / 10 ^ 10
                then t + (if fValue > 0 then - 10 else 10)
                else (let nextT = t - fValue / derivative
                      in if \<bar>nextT - t\<bar> > 100
                         then t - (0.5 * fValue) / derivative
                         else nextT))
      in if t' < startingTemp then startingTemp + 1 else t')"

text \<open>
  The loop \<^verbatim>\<open>while (count < ITER_MAX)\<close> on the pair of its variables \<open>(t, count)\<close>;
  the \<^verbatim>\<open>break\<close> is the branch that returns the pair unchanged.
\<close>

function solveLoop :: "reactorParams \<Rightarrow> real \<Rightarrow> real \<Rightarrow> real \<Rightarrow> nat \<Rightarrow> real \<times> nat" where
  "solveLoop p cumulativeConversion startingTemp t count =
     (if count < ITER_MAX
      then (if \<bar>objectiveFunction p cumulativeConversion startingTemp t\<bar> < TOLERANCE
            then (t, count)
            else solveLoop p cumulativeConversion startingTemp
                   (newtonUpdate p cumulativeConversion startingTemp t) (count + 1))
      else (t, count))"
  by pat_completeness auto
termination
  by (relation "measure (\<lambda>(p, c, s, t, count). ITER_MAX - count)") auto

definition solveForIntersection :: "real \<Rightarrow> real \<Rightarrow> real \<Rightarrow> reactorParams \<Rightarrow> stageResult" where
  "solveForIntersection initTemp cumulativeConversion startingTemp p =
     (case solveLoop p cumulativeConversion startingTemp (initTemp + 100) 0 of
        (t, count) \<Rightarrow>
          \<lparr>eqTemp = t,
           conversion = computeThermodynamicConversion t (baseK p) (deltaH p),
           iterations = count\<rparr>)"

text \<open>
  The temperatures at which the loop evaluates the objective for its tolerance test,
  in order: the same recursion as \<open>solveLoop\<close>, recording \<open>t\<close> at each test.
\<close>

function evaluatedTemps :: "reactorParams \<Rightarrow> real \<Rightarrow> real \<Rightarrow> real \<Rightarrow> nat \<Rightarrow> real list" where
  "evaluatedTemps p cumulativeConversion startingTemp t count =
     (if count < ITER_MAX
      then (if \<bar>objectiveFunction p cumulativeConversion startingTemp t\<bar> < TOLERANCE
            then [t]
            else t # evaluatedTemps p cumulativeConversion startingTemp
                       (newtonUpdate p cumulativeConversion startingTemp t) (count + 1))
      else [])"
  by pat_completeness auto
termination
  by (relation "measure (\<lambda>(p, c, s, t, count). ITER_MAX - count)") auto

definition solverTrace :: "real \<Rightarrow> real \<Rightarrow> real \<Rightarrow> reactorParams \<Rightarrow> real list" where
  "solverTrace initTemp cumulativeConversion startingTemp p =
     evaluatedTemps p cumulativeConversion startingTemp (initTemp + 100) 0"

subsection \<open>The component's state and \<^verbatim>\<open>runCalculation\<close>\<close>

record calcInputs =
  Ha :: real
  Hb :: real
  Ca :: real
  Cb :: real
  Fa0 :: real
  Ke :: real
  temperature :: real
  T0 :: real
  coolingTemp :: real
  targetConversion :: real

text \<open>
  The object passed to \<^verbatim>\<open>setResults\<close>. Its field \<^verbatim>\<open>iterations\<close> (the first
  reactor's count) is named \<open>firstIterations\<close> here, the name \<open>iterations\<close> being the
  field of a stage.
\<close>

record calcResults =
  Xe :: real
  Xeb :: real
  keAtTemp :: real
  intersection :: string
  adiabaticEqTemp :: real
  eqConversion :: real
  firstIterations :: nat
  stages :: "stageResult list"
  finalConversion :: real
  targetReached :: bool

text \<open>The four \<^verbatim>\<open>useState\<close> cells of the component.\<close>

record calcState =
  inputs :: calcInputs
  results :: "calcResults option"
  reactorStages :: "stageResult list"
  error :: "string option"

definition defaultInputs :: calcInputs where
  "defaultInputs =
     \<lparr>Ha = - 40000, Hb = - 60000, Ca = 50, Cb = 50, Fa0 = 40, Ke = 100000,
      temperature = 300, T0 = 300, coolingTemp = 350, targetConversion = 0.8\<rparr>"

definition initialState :: calcState where
  "initialState =
     \<lparr>inputs = defaultInputs, results = None, reactorStages = [], error = None\<rparr>"

definition derivedParams :: "calcInputs \<Rightarrow> reactorParams" where
  "derivedParams i = \<lparr>baseK = Ke i, deltaH = Hb i - Ha i, heatCapacity = Ca i\<rparr>"

definition capacityError :: string where
  "capacityError = ''Error: Cpa and Cpb must be equal for this calculation model.''"

text \<open>
  The loop \<^verbatim>\<open>while (totalConversion < targetConversion && reactorCount < STAGE_LIMIT)\<close>
  on its three variables; the \<^verbatim>\<open>break\<close> above 0.99 returns without a further test.
\<close>

function stageLoop ::
  "reactorParams \<Rightarrow> real \<Rightarrow> real \<Rightarrow> stageResult list \<Rightarrow> real \<Rightarrow> nat \<Rightarrow> stageResult list \<times> real"
where
  "stageLoop p cooling target reactors totalConversion reactorCount =
     (if totalConversion < target \<and> reactorCount < STAGE_LIMIT
      then (let nextReactor = solveForIntersection cooling totalConversion cooling p;
                reactors' = reactors @ [nextReactor];
                totalConversion' = conversion nextReactor
            in if totalConversion' > 0.99
               then (reactors', totalConversion')
               else stageLoop p cooling target reactors' totalConversion' (reactorCount + 1))
      else (reactors, totalConversion))"
  by pat_completeness auto
termination
  by (relation "measure (\<lambda>(p, c, tg, rs, tot, n). STAGE_LIMIT - n)") auto

definition runCalculation :: "calcState \<Rightarrow> calcState" where
  "runCalculation s =
     (let i = inputs s in
      if Ca i \<noteq> Cb i then s\<lparr>error := Some capacityError\<rparr>
      else
        (let p = derivedParams i;
             k = computeK (temperature i) (baseK p) (deltaH p);
             thermodynamicX = computeThermodynamicConversion (temperature i) (baseK p) (deltaH p);
             energyBalanceX =
               computeEnergyBalanceConversion (temperature i) (T0 i) (heatCapacity p) (deltaH p);
             firstReactor = solveForIntersection (T0 i) 0 (T0 i) p
         in case stageLoop p (coolingTemp i) (targetConversion i)
                   [firstReactor] (conversion firstReactor) 1 of
              (reactors, totalConversion) \<Rightarrow>
                s\<lparr>error := None,
                  reactorStages := reactors,
                  results := Some
                    \<lparr>Xe = thermodynamicX,
                     Xeb = energyBalanceX,
                     keAtTemp = k,
                     intersection =
                       (if \<bar>thermodynamicX - energyBalanceX\<bar> < 0.01
                        then ''Yes (within 1%)'' else ''No''),
                     adiabaticEqTemp = eqTemp firstReactor,
                     eqConversion = conversion firstReactor,
                     firstIterations = iterations firstReactor,
                     stages = reactors,
                     finalConversion = totalConversion,
                     targetReached = (totalConversion \<ge> targetConversion i)\<rparr>\<rparr>))"

subsection \<open>Auxiliary notions and concrete inputs\<close>

text \<open>
  The first reactor followed by the loop over the later ones, as \<^verbatim>\<open>runCalculation\<close>
  runs them: the pair of the array \<^verbatim>\<open>reactors\<close> and of \<^verbatim>\<open>totalConversion\<close>.
\<close>

definition stageRun :: "calcInputs \<Rightarrow> stageResult list \<times> real" where
  "stageRun i =
     stageLoop (derivedParams i) (coolingTemp i) (targetConversion i)
       [solveForIntersection (T0 i) 0 (T0 i) (derivedParams i)]
       (conversion (solveForIntersection (T0 i) 0 (T0 i) (derivedParams i))) 1"

text \<open>
  Every stage after the first is the solver started at the cooling temperature with
  the conversion of the stage before it.
\<close>

definition chained :: "reactorParams \<Rightarrow> real \<Rightarrow> stageResult list \<Rightarrow> bool" where
  "chained p cooling rs \<longleftrightarrow>
     (\<forall>i. Suc i < length rs \<longrightarrow>
        rs ! Suc i = solveForIntersection cooling (conversion (rs ! i)) cooling p)"

text \<open>
  The arguments with which \<^verbatim>\<open>runCalculation\<close> calls the solver for the stage of
  index \<open>k\<close>: the feed temperature for the first stage and the cooling temperature for
  the later ones, passed both as \<^verbatim>\<open>initTemp\<close> and as \<^verbatim>\<open>startingTemp\<close>; no prior
  conversion for the first stage and the conversion of the stage before for the later
  ones.
\<close>

definition stageStart :: "calcInputs \<Rightarrow> nat \<Rightarrow> real" where
  "stageStart i k = (if k = 0 then T0 i else coolingTemp i)"

definition stagePrior :: "stageResult list \<Rightarrow> nat \<Rightarrow> real" where
  "stagePrior rs k = (if k = 0 then 0 else conversion (rs ! (k - 1)))"

text \<open>
  Concrete inputs. With \<open>baseK = 0\<close> the thermodynamic conversion is 0 at every
  temperature and the objective is the straight line \<open>- (c + (t - s))\<close>, so each step
  of the solver can be followed by hand (\<open>linearParams\<close>). The inputs
  \<open>hotCoolingInputs\<close> and \<open>mildInputs\<close> feed the first reactor at 198 K, so that its
  first guess is 298 K, the reference temperature of the equilibrium constant, where
  the first stage stops at once with conversion \<open>1/2\<close>. The former cool the later
  reactors to 350 K only, above the first stage's temperature; the latter cool them
  back to 198 K and have a small enthalpy change, so that the equilibrium curve is
  nearly flat and the Newton steps of the second stage can be bounded.
\<close>

definition linearParams :: reactorParams where
  "linearParams = \<lparr>baseK = 0, deltaH = - 1, heatCapacity = 1\<rparr>"

definition hotParams :: reactorParams where
  "hotParams = \<lparr>baseK = 1, deltaH = - 200, heatCapacity = 1\<rparr>"

definition mildParams :: reactorParams where
  "mildParams = \<lparr>baseK = 1, deltaH = - 10, heatCapacity = 0.05\<rparr>"

definition stateWith :: "calcInputs \<Rightarrow> calcState" where
  "stateWith i = \<lparr>inputs = i, results = None, reactorStages = [], error = None\<rparr>"

definition hotCoolingInputs :: calcInputs where
  "hotCoolingInputs =
     \<lparr>Ha = 0, Hb = - 200, Ca = 1, Cb = 1, Fa0 = 40, Ke = 1,
      temperature = 300, T0 = 198, coolingTemp = 350, targetConversion = 0.8\<rparr>"

definition mildInputs :: calcInputs where
  "mildInputs =
     \<lparr>Ha = 0, Hb = - 10, Ca = 0.05, Cb = 0.05, Fa0 = 40, Ke = 1,
      temperature = 300, T0 = 198, coolingTemp = 198, targetConversion = 0.8\<rparr>"

definition unequalInputs :: calcInputs where
  "unequalInputs = defaultInputs\<lparr>Cb := 40\<rparr>"

section \<open>Properties of the equilibrium model\<close>

text \<open>
  C8. At the reference temperature 298 K the equilibrium constant is the base
  constant, whatever the base constant and the enthalpy change are.
\<close>

theorem computeK_reference_point: "computeK 298 k0 dH = k0"
  by (simp add: computeK_def)

lemma computeK_pos: "0 < k0 \<Longrightarrow> 0 < computeK t k0 dH"
  by (simp add: computeK_def)

lemma conversion_in_unit:
  assumes "0 < k0"
  shows "0 < computeThermodynamicConversion t k0 dH" "computeThermodynamicConversion t k0 dH < 1"
  using computeK_pos [OF assms, of t dH]
  by (simp_all add: computeThermodynamicConversion_def Let_def)

lemma expTerm_decreasing:
  fixes dH :: real
  assumes "dH < 0" "0 < t1" "t1 < t2"
  shows "(dH / R_VALUE) * (1 / 298 - 1 / t2) < (dH / R_VALUE) * (1 / 298 - 1 / t1)"
proof -
  have "1 / t2 < 1 / t1" using assms by (simp add: frac_less2)
  then have "1 / 298 - 1 / t1 < 1 / 298 - 1 / t2" by simp
  moreover have "dH / R_VALUE < 0" using assms by (simp add: R_VALUE_def)
  ultimately show ?thesis by (rule mult_strict_left_mono_neg)
qed

lemma computeK_decreasing:
  assumes "0 < k0" "dH < 0" "0 < t1" "t1 < t2"
  shows "computeK t2 k0 dH < computeK t1 k0 dH"
  using expTerm_decreasing [OF assms(2-4)] assms(1)
  by (simp add: computeK_def Let_def)

lemma ratio_mono:
  fixes a b :: real
  assumes "0 < a" "a < b"
  shows "a / (1 + a) < b / (1 + b)"
  using assms by (simp add: field_simps)

lemma conversion_decreasing:
  assumes "0 < k0" "dH < 0" "0 < t1" "t1 < t2"
  shows "computeThermodynamicConversion t2 k0 dH < computeThermodynamicConversion t1 k0 dH"
  unfolding computeThermodynamicConversion_def Let_def
  by (rule ratio_mono [OF computeK_pos [OF assms(1)] computeK_decreasing [OF assms]])

lemma conversion_at_reference: "computeThermodynamicConversion 298 k0 dH = k0 / (1 + k0)"
  by (simp add: computeThermodynamicConversion_def computeK_def)

lemma conversion_zero_baseK: "computeThermodynamicConversion t 0 dH = 0"
  by (simp add: computeThermodynamicConversion_def computeK_def)

lemma conversion_nonneg_baseK:
  assumes "0 \<le> k0"
  shows "0 \<le> computeThermodynamicConversion t k0 dH"
    and "computeThermodynamicConversion t k0 dH \<le> 1"
proof -
  have "0 \<le> computeK t k0 dH"
    using assms by (simp add: computeK_def)
  then show "0 \<le> computeThermodynamicConversion t k0 dH"
    and "computeThermodynamicConversion t k0 dH \<le> 1"
    by (simp_all add: computeThermodynamicConversion_def Let_def)
qed

lemma conversion_nonincreasing:
  assumes "0 \<le> k0" and "dH < 0" and "0 < t1" and "t1 < t2"
  shows "computeThermodynamicConversion t2 k0 dH \<le> computeThermodynamicConversion t1 k0 dH"
proof (cases "k0 = 0")
  case True
  then show ?thesis by (simp add: conversion_zero_baseK)
next
  case False
  with assms(1) have "0 < k0" by simp
  from conversion_decreasing [OF this assms(2-4)] show ?thesis by simp
qed

lemma conversion_negative_baseK: "computeThermodynamicConversion 298 (- 1 / 2) dH = - 1"
  by (simp add: conversion_at_reference)

lemma energyBalance_nonneg:
  "0 \<le> hc \<Longrightarrow> s \<le> t \<Longrightarrow> 0 \<le> computeEnergyBalanceConversion t s hc dH"
  by (simp add: computeEnergyBalanceConversion_def)

text \<open>
  C2, as amended. For a non-negative base constant and a positive temperature the
  thermodynamic conversion is never below 0 and never above 1, and for a negative
  enthalpy change (an exothermic reaction) it does not increase with the temperature:
  a higher temperature does not give a conversion larger by more than \<open>10^-9\<close>.

  Over the reals more is true: for a positive base constant the bounds are strict and
  the conversion is strictly decreasing (\<open>conversion_in_unit\<close>,
  \<open>conversion_decreasing\<close>, \<open>conversion_nonincreasing\<close>). The theorem is stated in the
  form that the program's double arithmetic preserves. There the value saturates at 1
  and at 0 for a very large and a very small equilibrium constant, so the bounds are
  not strict; the quotient \<open>k / (1 + k)\<close> is monotone in \<open>k\<close> only up to the rounding of
  \<open>1 + k\<close>, hence the slack; and each part is the failure of a comparison
  (\<open>X < 0\<close>, \<open>1 < X\<close>, \<open>X t + 10^-9 < X t2\<close>), which also holds when an overflow of the
  exponential has made the value not-a-number. A negative base constant is excluded:
  at 298 K the base constant \<open>-1/2\<close> gives the conversion \<open>-1\<close>
  (\<open>conversion_negative_baseK\<close>).
\<close>

theorem thermodynamicConversion_range_and_monotonicity:
  assumes "0 \<le> k0" and "0 < t"
  shows "\<not> computeThermodynamicConversion t k0 dH < 0 \<and>
         \<not> 1 < computeThermodynamicConversion t k0 dH \<and>
         (dH < 0 \<longrightarrow>
           (\<forall>t2. t < t2 \<longrightarrow>
              \<not> computeThermodynamicConversion t k0 dH + 1 / 10 ^ 9
                   < computeThermodynamicConversion t2 k0 dH))"
proof (intro conjI impI allI)
  show "\<not> computeThermodynamicConversion t k0 dH < 0"
    using conversion_nonneg_baseK(1) [OF assms(1), of t dH] by simp
  show "\<not> 1 < computeThermodynamicConversion t k0 dH"
    using conversion_nonneg_baseK(2) [OF assms(1), of t dH] by simp
next
  fix t2
  assume "dH < 0" and "t < t2"
  from conversion_nonincreasing [OF assms(1) this(1) assms(2) this(2)]
  have "computeThermodynamicConversion t2 k0 dH \<le> computeThermodynamicConversion t k0 dH" .
  moreover have "(0::real) < 1 / 10 ^ 9" by simp
  ultimately show "\<not> computeThermodynamicConversion t k0 dH + 1 / 10 ^ 9
                   < computeThermodynamicConversion t2 k0 dH"
    by linarith
qed

theorem thermodynamicConversion_range_and_monotonicity_witness:
  "(0::real) \<le> 1 \<and> (0::real) < 298 \<and>
   \<not> computeThermodynamicConversion 298 1 (- 200) < 0 \<and>
   \<not> 1 < computeThermodynamicConversion 298 1 (- 200) \<and>
   \<not> computeThermodynamicConversion 298 1 (- 200) + 1 / 10 ^ 9
       < computeThermodynamicConversion 596 1 (- 200)"
  using thermodynamicConversion_range_and_monotonicity [of 1 298 "- 200"]
  by simp

text \<open>
  The claim as stated fails twice: with base constant 0 the conversion is 0, which is
  not strictly positive; and with base constant 1 and enthalpy change \<open>-200\<close> the
  conversion at 596 K is below the one at 298 K, so it is not increasing.
\<close>

theorem thermodynamicConversion_claim_counterexample:
  "\<not> (0 < computeThermodynamicConversion 298 0 (- 200)) \<and>
   \<not> (computeThermodynamicConversion 298 1 (- 200) < computeThermodynamicConversion 596 1 (- 200))"
  using conversion_decreasing [of 1 "- 200" 298 596]
  by (simp add: conversion_zero_baseK)

section \<open>The single-stage solver\<close>

declare solveLoop.simps [simp del]

declare evaluatedTemps.simps [simp del]

declare stageLoop.simps [simp del]

lemma newtonUpdate_ge: "startingTemp \<le> newtonUpdate p c startingTemp t"
  by (simp add: newtonUpdate_def Let_def)

lemma solveLoop_stop:
  "\<not> n < ITER_MAX \<Longrightarrow> solveLoop p c s t n = (t, n)"
  by (subst solveLoop.simps) simp

lemma solveLoop_break:
  "n < ITER_MAX \<Longrightarrow> \<bar>objectiveFunction p c s t\<bar> < TOLERANCE \<Longrightarrow> solveLoop p c s t n = (t, n)"
  by (subst solveLoop.simps) simp

lemma solveLoop_continue:
  "n < ITER_MAX \<Longrightarrow> \<not> \<bar>objectiveFunction p c s t\<bar> < TOLERANCE \<Longrightarrow>
   solveLoop p c s t n = solveLoop p c s (newtonUpdate p c s t) (n + 1)"
  by (subst solveLoop.simps) simp

text \<open>
  What the loop computes: it applies the update \<open>k\<close> times, where no earlier iterate
  passed the tolerance test, and stops either because the \<open>k\<close>-th iterate passes it or
  because the counter has reached the cap.
\<close>

lemma solveLoop_iterates:
  "\<exists>k. solveLoop p c s t n = ((newtonUpdate p c s ^^ k) t, n + k) \<and>
       (\<forall>j<k. \<not> \<bar>objectiveFunction p c s ((newtonUpdate p c s ^^ j) t)\<bar> < TOLERANCE) \<and>
       (n + k < ITER_MAX \<longrightarrow> \<bar>objectiveFunction p c s ((newtonUpdate p c s ^^ k) t)\<bar> < TOLERANCE) \<and>
       (n \<le> ITER_MAX \<longrightarrow> n + k \<le> ITER_MAX)"
proof (induction p c s t n rule: solveLoop.induct)
  case (1 p c s t n)
  let ?f = "objectiveFunction p c s" and ?u = "newtonUpdate p c s"
  show ?case
  proof (cases "n < ITER_MAX")
    case False
    then have "solveLoop p c s t n = ((?u ^^ 0) t, n + 0)"
      by (simp add: solveLoop_stop)
    with False show ?thesis by (intro exI [of _ 0]) simp
  next
    case inside: True
    show ?thesis
    proof (cases "\<bar>?f t\<bar> < TOLERANCE")
      case True
      with inside have "solveLoop p c s t n = ((?u ^^ 0) t, n + 0)"
        by (simp add: solveLoop_break)
      with True inside show ?thesis by (intro exI [of _ 0]) simp
    next
      case False
      from "1.IH" [OF inside False] obtain k where
        k: "solveLoop p c s (?u t) (n + 1) = ((?u ^^ k) (?u t), n + 1 + k)"
           "\<forall>j<k. \<not> \<bar>?f ((?u ^^ j) (?u t))\<bar> < TOLERANCE"
           "n + 1 + k < ITER_MAX \<longrightarrow> \<bar>?f ((?u ^^ k) (?u t))\<bar> < TOLERANCE"
           "n + 1 \<le> ITER_MAX \<longrightarrow> n + 1 + k \<le> ITER_MAX"
        by blast
      have shift: "(?u ^^ j) (?u t) = (?u ^^ Suc j) t" for j
        by (simp add: funpow_swap1)
      have "solveLoop p c s t n = ((?u ^^ Suc k) t, n + Suc k)"
        using solveLoop_continue [OF inside False] k(1) by (simp add: shift)
      moreover have "\<forall>j<Suc k. \<not> \<bar>?f ((?u ^^ j) t)\<bar> < TOLERANCE"
      proof (intro allI impI)
        fix j assume "j < Suc k"
        show "\<not> \<bar>?f ((?u ^^ j) t)\<bar> < TOLERANCE"
        proof (cases j)
          case 0
          with False show ?thesis by simp
        next
          case (Suc i)
          with \<open>j < Suc k\<close> have "i < k" by simp
          with k(2) have "\<not> \<bar>?f ((?u ^^ i) (?u t))\<bar> < TOLERANCE" by blast
          with Suc show ?thesis by (simp add: funpow_swap1)
        qed
      qed
      moreover have "n + Suc k < ITER_MAX \<longrightarrow> \<bar>?f ((?u ^^ Suc k) t)\<bar> < TOLERANCE"
        using k(3) by (simp add: funpow_swap1)
      moreover have "n \<le> ITER_MAX \<longrightarrow> n + Suc k \<le> ITER_MAX"
        using k(4) inside by simp
      ultimately show ?thesis by blast
    qed
  qed
qed

lemma funpow_newtonUpdate_ge:
  "s \<le> t \<Longrightarrow> s \<le> (newtonUpdate p c s ^^ j) t"
  by (cases j) (simp_all add: newtonUpdate_ge)

lemma solveLoop_clamped:
  assumes "s \<le> t \<or> n < snd (solveLoop p c s t n)"
  shows "s \<le> fst (solveLoop p c s t n)"
proof -
  from solveLoop_iterates [of p c s t n] obtain k where
    k: "solveLoop p c s t n = ((newtonUpdate p c s ^^ k) t, n + k)" by blast
  show ?thesis
  proof (cases k)
    case 0
    with k assms show ?thesis by simp
  next
    case (Suc i)
    with k show ?thesis by (simp add: newtonUpdate_ge)
  qed
qed

lemma solveLoop_cap:
  assumes far: "\<And>u. s \<le> u \<Longrightarrow> \<not> \<bar>objectiveFunction p c s u\<bar> < TOLERANCE"
    and "s \<le> t" and "n \<le> ITER_MAX"
  shows "snd (solveLoop p c s t n) = ITER_MAX"
proof -
  from solveLoop_iterates [of p c s t n] obtain k where
    k: "solveLoop p c s t n = ((newtonUpdate p c s ^^ k) t, n + k)"
       "n + k < ITER_MAX \<longrightarrow> \<bar>objectiveFunction p c s ((newtonUpdate p c s ^^ k) t)\<bar> < TOLERANCE"
       "n \<le> ITER_MAX \<longrightarrow> n + k \<le> ITER_MAX"
    by blast
  have "\<not> n + k < ITER_MAX"
    using k(2) far [OF funpow_newtonUpdate_ge [OF assms(2), where p = p and c = c and j = k]] by blast
  with k(1,3) assms(3) show ?thesis by simp
qed

lemma solve_fields:
  "eqTemp (solveForIntersection i c s p) = fst (solveLoop p c s (i + 100) 0)"
  "iterations (solveForIntersection i c s p) = snd (solveLoop p c s (i + 100) 0)"
  "conversion (solveForIntersection i c s p) =
     computeThermodynamicConversion (fst (solveLoop p c s (i + 100) 0)) (baseK p) (deltaH p)"
  by (simp_all add: solveForIntersection_def split: prod.split)

lemma solve_on_curve:
  "conversion (solveForIntersection i c s p) =
     computeThermodynamicConversion (eqTemp (solveForIntersection i c s p)) (baseK p) (deltaH p)"
  by (simp add: solve_fields)

lemma solve_iterate:
  "eqTemp (solveForIntersection i c s p) =
     (newtonUpdate p c s ^^ iterations (solveForIntersection i c s p)) (i + 100)"
proof -
  from solveLoop_iterates [of p c s "i + 100" 0] obtain k where
    "solveLoop p c s (i + 100) 0 = ((newtonUpdate p c s ^^ k) (i + 100), 0 + k)"
    by blast
  then show ?thesis by (simp add: solve_fields)
qed

lemma solve_clamped:
  "s \<le> i + 100 \<or> 0 < iterations (solveForIntersection i c s p) \<Longrightarrow>
   s \<le> eqTemp (solveForIntersection i c s p)"
  unfolding solve_fields by (rule solveLoop_clamped)

lemma solve_within_tolerance:
  assumes "iterations (solveForIntersection i c s p) < ITER_MAX"
  shows "\<bar>objectiveFunction p c s (eqTemp (solveForIntersection i c s p))\<bar> < TOLERANCE"
proof -
  from solveLoop_iterates [of p c s "i + 100" 0] obtain k where
    k: "solveLoop p c s (i + 100) 0 = ((newtonUpdate p c s ^^ k) (i + 100), 0 + k)"
       "0 + k < ITER_MAX \<longrightarrow>
          \<bar>objectiveFunction p c s ((newtonUpdate p c s ^^ k) (i + 100))\<bar> < TOLERANCE"
    by blast
  with assms show ?thesis by (simp add: solve_fields)
qed

lemma solve_converged_gain:
  assumes "0 \<le> heatCapacity p" and "iterations (solveForIntersection s c s p) < ITER_MAX"
  shows "c - TOLERANCE < conversion (solveForIntersection s c s p)"
proof -
  let ?r = "solveForIntersection s c s p"
  have "s \<le> eqTemp ?r" by (rule solve_clamped) simp
  then have "0 \<le> computeEnergyBalanceConversion (eqTemp ?r) s (heatCapacity p) (deltaH p)"
    using assms(1) by (simp add: energyBalance_nonneg)
  moreover have "\<bar>objectiveFunction p c s (eqTemp ?r)\<bar> < TOLERANCE"
    by (rule solve_within_tolerance [OF assms(2)])
  ultimately show ?thesis
    by (simp add: objectiveFunction_def solve_on_curve [symmetric] abs_if split: if_splits)
qed

text \<open>
  The recorded temperatures are the iterates that the loop tests: as many as the
  iterations plus one when the loop stops on the tolerance test, 50 when it runs to
  the cap, and the \<open>j\<close>-th of them is the \<open>j\<close>-th iterate of the update from
  \<open>initTemp + 100\<close>.
\<close>

lemma evaluatedTemps_head:
  "n < ITER_MAX \<Longrightarrow>
   evaluatedTemps p c s t n \<noteq> [] \<and> hd (evaluatedTemps p c s t n) = t"
  by (subst (1 2) evaluatedTemps.simps) simp

lemma evaluatedTemps_last:
  "snd (solveLoop p c s t n) < ITER_MAX \<Longrightarrow>
   last (evaluatedTemps p c s t n) = fst (solveLoop p c s t n)"
proof (induction p c s t n rule: solveLoop.induct)
  case (1 p c s t n)
  show ?case
  proof (cases "n < ITER_MAX")
    case False
    with "1.prems" show ?thesis by (simp add: solveLoop_stop)
  next
    case inside: True
    show ?thesis
    proof (cases "\<bar>objectiveFunction p c s t\<bar> < TOLERANCE")
      case True
      with inside show ?thesis
        by (subst evaluatedTemps.simps) (simp add: solveLoop_break)
    next
      case False
      have "Suc n < ITER_MAX"
      proof (rule ccontr)
        assume "\<not> Suc n < ITER_MAX"
        then have "solveLoop p c s (newtonUpdate p c s t) (n + 1) = (newtonUpdate p c s t, n + 1)"
          by (simp add: solveLoop_stop)
        with "1.prems" inside False \<open>\<not> Suc n < ITER_MAX\<close> show False
          by (simp add: solveLoop_continue)
      qed
      then have ne: "evaluatedTemps p c s (newtonUpdate p c s t) (n + 1) \<noteq> []"
        using evaluatedTemps_head [of "n + 1" p c s] by simp
      from "1.IH" [OF inside False] "1.prems" inside False
      have "last (evaluatedTemps p c s (newtonUpdate p c s t) (n + 1)) =
            fst (solveLoop p c s (newtonUpdate p c s t) (n + 1))"
        by (simp add: solveLoop_continue)
      with inside False ne show ?thesis
        by (subst evaluatedTemps.simps) (simp add: solveLoop_continue)
    qed
  qed
qed

lemma evaluatedTemps_nth:
  "j < length (evaluatedTemps p c s t n) \<Longrightarrow>
   evaluatedTemps p c s t n ! j = (newtonUpdate p c s ^^ j) t"
proof (induction p c s t n arbitrary: j rule: evaluatedTemps.induct)
  case (1 p c s t n)
  show ?case
  proof (cases "n < ITER_MAX")
    case False
    with "1.prems" show ?thesis by (subst (asm) evaluatedTemps.simps) simp
  next
    case inside: True
    show ?thesis
    proof (cases "\<bar>objectiveFunction p c s t\<bar> < TOLERANCE")
      case True
      with inside have "evaluatedTemps p c s t n = [t]"
        by (subst evaluatedTemps.simps) simp
      with "1.prems" show ?thesis by simp
    next
      case False
      with inside have eq: "evaluatedTemps p c s t n =
          t # evaluatedTemps p c s (newtonUpdate p c s t) (n + 1)"
        by (subst evaluatedTemps.simps) simp
      show ?thesis
      proof (cases j)
        case 0
        then show ?thesis by (simp add: eq)
      next
        case (Suc i)
        with "1.prems" have "i < length (evaluatedTemps p c s (newtonUpdate p c s t) (n + 1))"
          by (simp add: eq)
        from "1.IH" [OF inside False this] Suc show ?thesis
          by (simp add: eq funpow_swap1)
      qed
    qed
  qed
qed

lemma evaluatedTemps_length:
  "n \<le> ITER_MAX \<Longrightarrow>
   length (evaluatedTemps p c s t n) =
     (if snd (solveLoop p c s t n) < ITER_MAX then Suc (snd (solveLoop p c s t n) - n)
      else ITER_MAX - n)"
proof (induction p c s t n rule: solveLoop.induct)
  case (1 p c s t n)
  show ?case
  proof (cases "n < ITER_MAX")
    case False
    then have "evaluatedTemps p c s t n = []"
      by (subst evaluatedTemps.simps) simp
    with False "1.prems" show ?thesis by (simp add: solveLoop_stop)
  next
    case inside: True
    show ?thesis
    proof (cases "\<bar>objectiveFunction p c s t\<bar> < TOLERANCE")
      case True
      with inside have "evaluatedTemps p c s t n = [t]"
        by (subst evaluatedTemps.simps) simp
      with inside True show ?thesis by (simp add: solveLoop_break)
    next
      case False
      with inside have eq: "evaluatedTemps p c s t n =
          t # evaluatedTemps p c s (newtonUpdate p c s t) (n + 1)"
        by (subst evaluatedTemps.simps) simp
      from solveLoop_iterates [of p c s "newtonUpdate p c s t" "n + 1"] obtain k where
        k: "solveLoop p c s (newtonUpdate p c s t) (n + 1) =
              ((newtonUpdate p c s ^^ k) (newtonUpdate p c s t), n + 1 + k)"
        by blast
      from "1.IH" [OF inside False] inside
      have "length (evaluatedTemps p c s (newtonUpdate p c s t) (n + 1)) =
         (if snd (solveLoop p c s (newtonUpdate p c s t) (n + 1)) < ITER_MAX
          then Suc (snd (solveLoop p c s (newtonUpdate p c s t) (n + 1)) - (n + 1))
          else ITER_MAX - (n + 1))"
        by simp
      with inside False k show ?thesis
        by (simp add: eq solveLoop_continue Suc_diff_Suc)
    qed
  qed
qed

lemma solverTrace_solver:
  "length (solverTrace i c s p) =
     (if iterations (solveForIntersection i c s p) < ITER_MAX
      then Suc (iterations (solveForIntersection i c s p)) else ITER_MAX)"
  "j < length (solverTrace i c s p) \<Longrightarrow>
     solverTrace i c s p ! j = (newtonUpdate p c s ^^ j) (i + 100)"
  "solverTrace i c s p \<noteq> []"
  "hd (solverTrace i c s p) = i + 100"
proof -
  show "length (solverTrace i c s p) =
     (if iterations (solveForIntersection i c s p) < ITER_MAX
      then Suc (iterations (solveForIntersection i c s p)) else ITER_MAX)"
    using evaluatedTemps_length [of 0 p c s "i + 100"]
    by (simp add: solverTrace_def solve_fields)
  show "j < length (solverTrace i c s p) \<Longrightarrow>
     solverTrace i c s p ! j = (newtonUpdate p c s ^^ j) (i + 100)"
    unfolding solverTrace_def by (rule evaluatedTemps_nth)
  show "solverTrace i c s p \<noteq> []" and "hd (solverTrace i c s p) = i + 100"
    using evaluatedTemps_head [of 0 p c s "i + 100"]
    by (simp_all add: solverTrace_def ITER_MAX_def)
qed

subsection \<open>The solver on the straight-line objective\<close>

lemma linear_objective:
  "objectiveFunction linearParams c s t = - (c + (t - s))"
  by (simp add: objectiveFunction_def linearParams_def conversion_zero_baseK
      computeEnergyBalanceConversion_def)

lemma linear_derivative:
  "calculateDerivative linearParams c s t = - 1"
  by (simp add: calculateDerivative_def linear_objective Let_def)

lemma linear_update:
  assumes "c \<le> 0" and "t - 100 \<le> s - c"  and "s - c \<le> t"
  shows "newtonUpdate linearParams c s t = s - c"
proof -
  have f: "objectiveFunction linearParams c s t = s - c - t"
    by (simp add: linear_objective)
  show ?thesis
    unfolding newtonUpdate_def Let_def linear_derivative f
    using assms by (simp add: abs_if)
qed

lemma linear_loop:
  assumes "c \<le> 0" and "t - 100 \<le> s - c"  and "s - c \<le> t - 1"
  shows "solveLoop linearParams c s t 0 = (s - c, 1)"
proof -
  have "\<not> \<bar>objectiveFunction linearParams c s t\<bar> < TOLERANCE"
    using assms by (simp add: linear_objective TOLERANCE_def abs_if)
  then have "solveLoop linearParams c s t 0 = solveLoop linearParams c s (s - c) (0 + 1)"
    using solveLoop_continue [of 0 linearParams c s t] assms
    by (simp add: linear_update ITER_MAX_def)
  also have "\<dots> = (s - c, 0 + 1)"
    by (rule solveLoop_break) (simp_all add: linear_objective ITER_MAX_def TOLERANCE_def)
  finally show ?thesis by simp
qed

lemma linear_stage:
  "solveForIntersection 300 (- 1 / 2) 300 linearParams =
     \<lparr>eqTemp = 300.5, conversion = 0, iterations = 1\<rparr>"
proof -
  have "solveLoop linearParams (- 1 / 2) 300 (300 + 100) 0 = (300 - (- 1 / 2), 1)"
    by (rule linear_loop) simp_all
  then show ?thesis
    by (simp add: solveForIntersection_def linearParams_def conversion_zero_baseK)
qed

subsection \<open>The claims about the solver\<close>



text \<open>
  C4. The solver is a total function: the loop is defined by recursion on
  \<open>ITER_MAX - count\<close>, and no branch of it is an error. Its result after \<open>n\<close> iterations,
  \<open>n \<le> 50\<close>, is the \<open>n\<close>-th iterate of the update from \<open>initTemp + 100\<close>; none of the
  iterates before it passed the tolerance test; with \<open>n < 50\<close> the returned temperature
  passes it; the returned conversion is the thermodynamic conversion at the returned
  temperature; and when the first guess passes the test, it is returned with count 0.
\<close>

theorem solver_terminates_within_cap:
  "iterations (solveForIntersection i c s p) \<le> 50 \<and>
   eqTemp (solveForIntersection i c s p) =
     (newtonUpdate p c s ^^ iterations (solveForIntersection i c s p)) (i + 100) \<and>
   (\<forall>j < iterations (solveForIntersection i c s p).
      \<not> \<bar>objectiveFunction p c s ((newtonUpdate p c s ^^ j) (i + 100))\<bar> < 0.0001) \<and>
   (iterations (solveForIntersection i c s p) < 50 \<longrightarrow>
      \<bar>objectiveFunction p c s (eqTemp (solveForIntersection i c s p))\<bar> < 0.0001) \<and>
   conversion (solveForIntersection i c s p) =
     computeThermodynamicConversion (eqTemp (solveForIntersection i c s p)) (baseK p) (deltaH p) \<and>
   (\<bar>objectiveFunction p c s (i + 100)\<bar> < 0.0001 \<longrightarrow>
      iterations (solveForIntersection i c s p) = 0 \<and>
      eqTemp (solveForIntersection i c s p) = i + 100)"
proof -
  from solveLoop_iterates [of p c s "i + 100" 0] obtain k where
    k: "solveLoop p c s (i + 100) 0 = ((newtonUpdate p c s ^^ k) (i + 100), 0 + k)"
       "\<forall>j<k. \<not> \<bar>objectiveFunction p c s ((newtonUpdate p c s ^^ j) (i + 100))\<bar> < TOLERANCE"
       "0 + k < ITER_MAX \<longrightarrow>
          \<bar>objectiveFunction p c s ((newtonUpdate p c s ^^ k) (i + 100))\<bar> < TOLERANCE"
       "0 \<le> ITER_MAX \<longrightarrow> 0 + k \<le> ITER_MAX"
    by blast
  have tol: "TOLERANCE = 0.0001" and cap: "ITER_MAX = 50"
    by (simp_all add: TOLERANCE_def ITER_MAX_def)
  have "\<bar>objectiveFunction p c s (i + 100)\<bar> < TOLERANCE \<Longrightarrow>
        solveLoop p c s (i + 100) 0 = (i + 100, 0)"
    by (rule solveLoop_break) (simp add: ITER_MAX_def)
  with k show ?thesis
    unfolding solve_fields tol cap by simp
qed

theorem solver_terminates_within_cap_witness:
  "iterations (solveForIntersection 300 (- 1 / 2) 300 linearParams) = 1 \<and>
   eqTemp (solveForIntersection 300 (- 1 / 2) 300 linearParams) =
     newtonUpdate linearParams (- 1 / 2) 300 (300 + 100) \<and>
   \<not> \<bar>objectiveFunction linearParams (- 1 / 2) 300 (300 + 100)\<bar> < 0.0001 \<and>
   \<bar>objectiveFunction linearParams (- 1 / 2) 300
      (eqTemp (solveForIntersection 300 (- 1 / 2) 300 linearParams))\<bar> < 0.0001"
  using solver_terminates_within_cap [of 300 "- 1 / 2" 300 linearParams] linear_stage
  by simp

lemma bouncing_never_converges:
  "300 \<le> u \<Longrightarrow> \<not> \<bar>objectiveFunction linearParams (1 / 2) 300 u\<bar> < TOLERANCE"
  by (simp add: linear_objective TOLERANCE_def abs_if)

lemma bouncing_stage:
  "iterations (solveForIntersection 300 (1 / 2) 300 linearParams) = ITER_MAX"
  "conversion (solveForIntersection 300 (1 / 2) 300 linearParams) = 0"
  "0 \<le> computeEnergyBalanceConversion
       (eqTemp (solveForIntersection 300 (1 / 2) 300 linearParams)) 300
       (heatCapacity linearParams) (deltaH linearParams)"
proof -
  show "iterations (solveForIntersection 300 (1 / 2) 300 linearParams) = ITER_MAX"
    unfolding solve_fields by (rule solveLoop_cap) (simp_all add: bouncing_never_converges)
  show "conversion (solveForIntersection 300 (1 / 2) 300 linearParams) = 0"
    by (simp add: solve_fields linearParams_def conversion_zero_baseK)
  have "300 \<le> eqTemp (solveForIntersection 300 (1 / 2) 300 linearParams)"
    by (rule solve_clamped) simp
  then show "0 \<le> computeEnergyBalanceConversion
       (eqTemp (solveForIntersection 300 (1 / 2) 300 linearParams)) 300
       (heatCapacity linearParams) (deltaH linearParams)"
    by (simp add: energyBalance_nonneg linearParams_def)
qed

text \<open>
  C10. The conversion the solver returns is the thermodynamic conversion at the
  temperature it returns, for every input. It need not lie on the energy-balance line:
  on the straight-line objective with prior conversion \<open>1/2\<close> the solver reaches the cap
  of 50 iterations and returns the conversion 0, while the prior conversion plus the
  energy-balance conversion at the returned temperature is at least \<open>1/2\<close>.
\<close>

theorem solver_result_on_equilibrium_curve:
  "conversion (solveForIntersection i c s p) =
     computeThermodynamicConversion (eqTemp (solveForIntersection i c s p)) (baseK p) (deltaH p) \<and>
   iterations (solveForIntersection 300 (1 / 2) 300 linearParams) = 50 \<and>
   conversion (solveForIntersection 300 (1 / 2) 300 linearParams) \<noteq>
     1 / 2 + computeEnergyBalanceConversion
               (eqTemp (solveForIntersection 300 (1 / 2) 300 linearParams)) 300
               (heatCapacity linearParams) (deltaH linearParams)"
  using bouncing_stage
  by (simp add: solve_on_curve [symmetric] ITER_MAX_def)

section \<open>The multi-stage calculation\<close>

lemma chained_snoc:
  assumes "chained p cooling rs" and "rs \<noteq> []"
  shows "chained p cooling (rs @ [solveForIntersection cooling (conversion (last rs)) cooling p])"
  unfolding chained_def
proof (intro allI impI)
  fix i
  let ?x = "solveForIntersection cooling (conversion (last rs)) cooling p"
  assume "Suc i < length (rs @ [?x])"
  then consider "Suc i < length rs" | "Suc i = length rs" by fastforce
  then show "(rs @ [?x]) ! Suc i = solveForIntersection cooling (conversion ((rs @ [?x]) ! i)) cooling p"
  proof cases
    case 1
    with assms(1) show ?thesis by (simp add: chained_def nth_append)
  next
    case 2
    then have "i = length rs - 1" "i < length rs" by simp_all
    with assms(2) show ?thesis using 2 by (simp add: nth_append last_conv_nth)
  qed
qed

lemma stageLoop_stop:
  "\<not> (tot < target \<and> n < STAGE_LIMIT) \<Longrightarrow> stageLoop p cooling target rs tot n = (rs, tot)"
  by (subst stageLoop.simps) auto

lemma stageLoop_break:
  "tot < target \<Longrightarrow> n < STAGE_LIMIT \<Longrightarrow>
   conversion (solveForIntersection cooling tot cooling p) > 0.99 \<Longrightarrow>
   stageLoop p cooling target rs tot n =
     (rs @ [solveForIntersection cooling tot cooling p],
      conversion (solveForIntersection cooling tot cooling p))"
  by (subst stageLoop.simps) (simp add: Let_def)

lemma stageLoop_continue:
  "tot < target \<Longrightarrow> n < STAGE_LIMIT \<Longrightarrow>
   \<not> conversion (solveForIntersection cooling tot cooling p) > 0.99 \<Longrightarrow>
   stageLoop p cooling target rs tot n =
     stageLoop p cooling target (rs @ [solveForIntersection cooling tot cooling p])
       (conversion (solveForIntersection cooling tot cooling p)) (n + 1)"
  by (subst stageLoop.simps) (simp add: Let_def)

lemma stageLoop_invariant:
  assumes "rs \<noteq> []" and "tot = conversion (last rs)" and "chained p cooling rs"
    and "length rs = n" and "n \<le> STAGE_LIMIT"
  shows "chained p cooling (fst (stageLoop p cooling target rs tot n)) \<and>
         snd (stageLoop p cooling target rs tot n) =
           conversion (last (fst (stageLoop p cooling target rs tot n))) \<and>
         length rs \<le> length (fst (stageLoop p cooling target rs tot n)) \<and>
         length (fst (stageLoop p cooling target rs tot n)) \<le> STAGE_LIMIT \<and>
         take (length rs) (fst (stageLoop p cooling target rs tot n)) = rs"
  using assms
proof (induction p cooling target rs tot n rule: stageLoop.induct)
  case (1 p cooling target reactors totalConversion reactorCount)
  let ?next = "solveForIntersection cooling totalConversion cooling p"
  show ?case
  proof (cases "totalConversion < target \<and> reactorCount < STAGE_LIMIT")
    case False
    then have "stageLoop p cooling target reactors totalConversion reactorCount =
                 (reactors, totalConversion)"
      by (rule stageLoop_stop)
    with "1.prems" show ?thesis by simp
  next
    case enter: True
    have ch: "chained p cooling (reactors @ [?next])"
      using chained_snoc [OF "1.prems"(3,1)] "1.prems"(2) by simp
    show ?thesis
    proof (cases "conversion ?next > 0.99")
      case True
      with enter have "stageLoop p cooling target reactors totalConversion reactorCount =
                   (reactors @ [?next], conversion ?next)"
        by (simp add: stageLoop_break)
      with ch "1.prems" enter show ?thesis by simp
    next
      case False
      with enter have eq: "stageLoop p cooling target reactors totalConversion reactorCount =
          stageLoop p cooling target (reactors @ [?next]) (conversion ?next) (reactorCount + 1)"
        by (simp add: stageLoop_continue)
      have "chained p cooling (fst (stageLoop p cooling target (reactors @ [?next]) (conversion ?next) (reactorCount + 1))) \<and>
         snd (stageLoop p cooling target (reactors @ [?next]) (conversion ?next) (reactorCount + 1)) =
           conversion (last (fst (stageLoop p cooling target (reactors @ [?next]) (conversion ?next) (reactorCount + 1)))) \<and>
         length (reactors @ [?next]) \<le> length (fst (stageLoop p cooling target (reactors @ [?next]) (conversion ?next) (reactorCount + 1))) \<and>
         length (fst (stageLoop p cooling target (reactors @ [?next]) (conversion ?next) (reactorCount + 1))) \<le> STAGE_LIMIT \<and>
         take (length (reactors @ [?next])) (fst (stageLoop p cooling target (reactors @ [?next]) (conversion ?next) (reactorCount + 1))) = reactors @ [?next]"
        using enter False ch "1.prems"
        by (intro "1.IH" [OF enter refl refl refl]) simp_all
      then show ?thesis
        unfolding eq
        by (auto simp: take_Suc_conv_app_nth dest: arg_cong [where f = "take (length reactors)"])
    qed
  qed
qed

lemma stageLoop_next:
  assumes "rs \<noteq> []" and "tot = conversion (last rs)" and "chained p cooling rs"
    and "tot < target" and "length rs < STAGE_LIMIT"
  shows "length rs < length (fst (stageLoop p cooling target rs tot (length rs))) \<and>
         fst (stageLoop p cooling target rs tot (length rs)) ! length rs =
           solveForIntersection cooling tot cooling p"
proof (cases "conversion (solveForIntersection cooling tot cooling p) > 0.99")
  case True
  with assms(4,5) show ?thesis by (simp add: stageLoop_break)
next
  case False
  let ?next = "solveForIntersection cooling tot cooling p"
  let ?L = "stageLoop p cooling target (rs @ [?next]) (conversion ?next) (length rs + 1)"
  have "length (rs @ [?next]) \<le> length (fst ?L) \<and>
        take (length (rs @ [?next])) (fst ?L) = rs @ [?next]"
    using stageLoop_invariant [of "rs @ [?next]" "conversion ?next" p cooling "length rs + 1" target]
      chained_snoc [OF assms(3,1)] assms(2,5) by simp
  then have len: "length rs < length (fst ?L)"
    and tk: "take (Suc (length rs)) (fst ?L) = rs @ [?next]"
    by simp_all
  have "fst ?L ! length rs = take (Suc (length rs)) (fst ?L) ! length rs"
    by simp
  also have "\<dots> = ?next"
    unfolding tk by simp
  finally show ?thesis
    using len assms(4,5) False by (simp add: stageLoop_continue)
qed

lemma runCalculation_invalid:
  "Ca (inputs s) \<noteq> Cb (inputs s) \<Longrightarrow> runCalculation s = s\<lparr>error := Some capacityError\<rparr>"
  by (simp add: runCalculation_def Let_def)

lemma runCalculation_valid:
  assumes "Ca (inputs s) = Cb (inputs s)"
  shows "inputs (runCalculation s) = inputs s"
    and "error (runCalculation s) = None"
    and "reactorStages (runCalculation s) = fst (stageRun (inputs s))"
    and "\<exists>r. results (runCalculation s) = Some r \<and> stages r = fst (stageRun (inputs s)) \<and>
             finalConversion r = snd (stageRun (inputs s))"
  using assms by (simp_all add: runCalculation_def stageRun_def Let_def split: prod.split)

lemma runCalculation_inputs: "inputs (runCalculation s) = inputs s"
  by (cases "Ca (inputs s) = Cb (inputs s)")
     (simp_all add: runCalculation_valid runCalculation_invalid)

lemma stageRun_invariant:
  "chained (derivedParams i) (coolingTemp i) (fst (stageRun i))"
  "snd (stageRun i) = conversion (last (fst (stageRun i)))"
  "1 \<le> length (fst (stageRun i))"
  "length (fst (stageRun i)) \<le> STAGE_LIMIT"
  "take 1 (fst (stageRun i)) = [solveForIntersection (T0 i) 0 (T0 i) (derivedParams i)]"
  using stageLoop_invariant [of "[solveForIntersection (T0 i) 0 (T0 i) (derivedParams i)]"
      "conversion (solveForIntersection (T0 i) 0 (T0 i) (derivedParams i))"
      "derivedParams i" "coolingTemp i" 1 "targetConversion i"]
  by (simp_all add: stageRun_def chained_def STAGE_LIMIT_def)

lemma stageRun_second:
  assumes "conversion (solveForIntersection (T0 i) 0 (T0 i) (derivedParams i)) < targetConversion i"
  shows "1 < length (fst (stageRun i))"
    and "fst (stageRun i) ! 0 = solveForIntersection (T0 i) 0 (T0 i) (derivedParams i)"
    and "fst (stageRun i) ! 1 =
           solveForIntersection (coolingTemp i)
             (conversion (solveForIntersection (T0 i) 0 (T0 i) (derivedParams i)))
             (coolingTemp i) (derivedParams i)"
proof -
  let ?first = "solveForIntersection (T0 i) 0 (T0 i) (derivedParams i)"
  have "length [?first] < length (fst (stageLoop (derivedParams i) (coolingTemp i)
            (targetConversion i) [?first] (conversion ?first) (length [?first]))) \<and>
        fst (stageLoop (derivedParams i) (coolingTemp i)
            (targetConversion i) [?first] (conversion ?first) (length [?first])) ! length [?first] =
        solveForIntersection (coolingTemp i) (conversion ?first) (coolingTemp i) (derivedParams i)"
    by (rule stageLoop_next) (simp_all add: assms chained_def STAGE_LIMIT_def)
  then show "1 < length (fst (stageRun i))"
    and "fst (stageRun i) ! 1 =
           solveForIntersection (coolingTemp i) (conversion ?first) (coolingTemp i) (derivedParams i)"
    by (simp_all add: stageRun_def)
  have "fst (stageRun i) ! 0 = take 1 (fst (stageRun i)) ! 0"
    by simp
  also have "\<dots> = ?first"
    unfolding stageRun_invariant(5) by simp
  finally show "fst (stageRun i) ! 0 = ?first" .
qed

lemma stage_is_solver_call:
  assumes "Ca (inputs s) = Cb (inputs s)" and "k < length (reactorStages (runCalculation s))"
  shows "reactorStages (runCalculation s) ! k =
           solveForIntersection (stageStart (inputs s) k)
             (stagePrior (reactorStages (runCalculation s)) k)
             (stageStart (inputs s) k) (derivedParams (inputs s))"
proof -
  let ?rs = "fst (stageRun (inputs s))"
  have rs: "reactorStages (runCalculation s) = ?rs"
    by (rule runCalculation_valid(3) [OF assms(1)])
  show ?thesis
  proof (cases k)
    case 0
    have "?rs ! 0 = take 1 ?rs ! 0" by simp
    also have "\<dots> = solveForIntersection (T0 (inputs s)) 0 (T0 (inputs s)) (derivedParams (inputs s))"
      unfolding stageRun_invariant(5) by simp
    finally show ?thesis
      unfolding rs by (simp add: 0 stageStart_def stagePrior_def)
  next
    case (Suc j)
    have "chained (derivedParams (inputs s)) (coolingTemp (inputs s)) ?rs"
      by (rule stageRun_invariant(1))
    with assms(2) Suc show ?thesis
      unfolding rs chained_def by (simp add: stageStart_def stagePrior_def)
  qed
qed

text \<open>
  C5. With equal heat capacities the calculation stores a result whose stage sequence
  has at least 1 and at most 5 entries; it is the sequence kept in the cell
  \<open>reactorStages\<close>.
\<close>

theorem stage_count_bounds:
  assumes "Ca (inputs s) = Cb (inputs s)"
  shows "\<exists>r. results (runCalculation s) = Some r \<and>
             stages r = reactorStages (runCalculation s) \<and>
             1 \<le> length (stages r) \<and> length (stages r) \<le> 5"
  using runCalculation_valid(3,4) [OF assms] stageRun_invariant(3,4) [of "inputs s"]
  by (auto simp: STAGE_LIMIT_def)

theorem stage_count_bounds_witness:
  "Ca (inputs initialState) = Cb (inputs initialState) \<and>
   (\<exists>r. results (runCalculation initialState) = Some r \<and>
        1 \<le> length (stages r) \<and> length (stages r) \<le> 5)"
proof -
  have b: "Ca (inputs initialState) = Cb (inputs initialState)"
    by (simp add: initialState_def defaultInputs_def)
  from stage_count_bounds [OF b] b show ?thesis by blast
qed

text \<open>
  C6. With unequal heat capacities \<^verbatim>\<open>runCalculation\<close> returns at its first statement:
  the state it leaves is the state it found with the error message set. The results
  and the stage sequence are the ones from before the call, so nothing computed by a
  solver call is stored.
\<close>

theorem unequal_capacities_block:
  assumes "Ca (inputs s) \<noteq> Cb (inputs s)"
  shows "runCalculation s = s\<lparr>error := Some capacityError\<rparr> \<and>
         error (runCalculation s) = Some capacityError \<and>
         results (runCalculation s) = results s \<and>
         reactorStages (runCalculation s) = reactorStages s"
  using assms by (simp add: runCalculation_invalid)

theorem unequal_capacities_block_witness:
  "Ca (inputs (stateWith unequalInputs)) \<noteq> Cb (inputs (stateWith unequalInputs)) \<and>
   error (runCalculation (stateWith unequalInputs)) = Some capacityError \<and>
   results (runCalculation (stateWith unequalInputs)) = None \<and>
   reactorStages (runCalculation (stateWith unequalInputs)) = []"
proof -
  have b: "Ca (inputs (stateWith unequalInputs)) \<noteq> Cb (inputs (stateWith unequalInputs))"
    by (simp add: stateWith_def unequalInputs_def defaultInputs_def)
  have "results (stateWith unequalInputs) = None" "reactorStages (stateWith unequalInputs) = []"
    by (simp_all add: stateWith_def)
  with unequal_capacities_block [OF b] b show ?thesis by simp
qed

lemma state_overwrite_eq:
  fixes s s' :: calcState
  shows "inputs s' = inputs s \<Longrightarrow>
   s'\<lparr>error := e, reactorStages := rs, results := r\<rparr> =
   s\<lparr>error := e, reactorStages := rs, results := r\<rparr>"
  by (cases s, cases s') simp

lemma runCalculation_shape:
  assumes "Ca (inputs s) = Cb (inputs s)"
  shows "\<exists>rs r. (\<forall>s'. inputs s' = inputs s \<longrightarrow> 
              runCalculation s' = s'\<lparr>error := None, reactorStages := rs, results := Some r\<rparr>)"
proof -
  obtain reactors tot where L: "stageLoop (derivedParams (inputs s)) (coolingTemp (inputs s))
       (targetConversion (inputs s))
       [solveForIntersection (T0 (inputs s)) 0 (T0 (inputs s)) (derivedParams (inputs s))]
       (conversion (solveForIntersection (T0 (inputs s)) 0 (T0 (inputs s)) (derivedParams (inputs s))))
       1 = (reactors, tot)"
    by (metis surj_pair)
  have ok: "(Ca (inputs s) \<noteq> Cb (inputs s)) = False"
    using assms by simp
  have "\<exists>r. \<forall>s'. inputs s' = inputs s \<longrightarrow> 
              runCalculation s' = s'\<lparr>error := None, reactorStages := reactors, results := Some r\<rparr>"
    by (rule exI, intro allI impI)
       (simp only: runCalculation_def Let_def L ok if_False prod.case)
  then show ?thesis by blast
qed

lemma runCalculation_same_inputs:
  assumes "inputs s' = inputs s" and "Ca (inputs s) = Cb (inputs s)"
  shows "runCalculation s' = runCalculation s"
proof -
  from runCalculation_shape [OF assms(2)] obtain rs r where
    sh: "\<And>u. inputs u = inputs s \<Longrightarrow>
           runCalculation u = u\<lparr>error := None, reactorStages := rs, results := Some r\<rparr>"
    by blast
  have "runCalculation s' = s'\<lparr>error := None, reactorStages := rs, results := Some r\<rparr>"
    by (rule sh [OF assms(1)])
  also have "\<dots> = s\<lparr>error := None, reactorStages := rs, results := Some r\<rparr>"
    by (rule state_overwrite_eq [OF assms(1)])
  also have "\<dots> = runCalculation s"
    by (rule sh [OF refl, symmetric])
  finally show ?thesis .
qed

lemma runCalculation_idempotent: "runCalculation (runCalculation s) = runCalculation s"
proof (cases "Ca (inputs s) = Cb (inputs s)")
  case True
  show ?thesis
    by (rule runCalculation_same_inputs [OF runCalculation_inputs True])
next
  case False
  then show ?thesis by (simp add: runCalculation_invalid)
qed

text \<open>
  C9. Running the calculation again on the state it produced changes nothing, and
  two states with the same inputs (and equal heat capacities) are taken to the same
  state, whatever results, stages or error they held before: the outcome is a function
  of the inputs alone.
\<close>

theorem runCalculation_deterministic:
  "runCalculation (runCalculation s) = runCalculation s \<and>
   (\<forall>s'. inputs s' = inputs s \<and> Ca (inputs s) = Cb (inputs s) \<longrightarrow>
      runCalculation s' = runCalculation s)"
  using runCalculation_idempotent runCalculation_same_inputs by blast

theorem runCalculation_deterministic_witness:
  "inputs (initialState\<lparr>error := Some capacityError,
                        reactorStages := [\<lparr>eqTemp = 1, conversion = 2, iterations = 3\<rparr>]\<rparr>) =
     inputs initialState \<and>
   Ca (inputs initialState) = Cb (inputs initialState) \<and>
   runCalculation (runCalculation initialState) = runCalculation initialState \<and>
   runCalculation (initialState\<lparr>error := Some capacityError,
                                 reactorStages := [\<lparr>eqTemp = 1, conversion = 2, iterations = 3\<rparr>]\<rparr>) =
     runCalculation initialState"
proof -
  have a: "inputs (initialState\<lparr>error := Some capacityError,
                        reactorStages := [\<lparr>eqTemp = 1, conversion = 2, iterations = 3\<rparr>]\<rparr>) =
     inputs initialState" by simp
  have b: "Ca (inputs initialState) = Cb (inputs initialState)"
    by (simp add: initialState_def defaultInputs_def)
  from runCalculation_deterministic [of initialState] a b show ?thesis by blast
qed

text \<open>
  C7. The solver is a closure of the component and is called by \<^verbatim>\<open>runCalculation\<close>
  only, once for each stage. For every stage of a run, the stored stage is the result
  of the solver called with the stage's reference temperature (the feed temperature
  for the first stage, the cooling temperature for the later ones) as both
  \<^verbatim>\<open>initTemp\<close> and \<^verbatim>\<open>startingTemp\<close>; the first temperature at which that call evaluates
  the objective is the reference temperature plus 100; and the temperature it returns
  is the iterate of the Newton update from there whose index is the returned
  iteration count.
\<close>

theorem stage_solver_first_temperature:
  assumes "Ca (inputs s) = Cb (inputs s)" and "k < length (reactorStages (runCalculation s))"
  shows "reactorStages (runCalculation s) ! k =
           solveForIntersection (stageStart (inputs s) k)
             (stagePrior (reactorStages (runCalculation s)) k)
             (stageStart (inputs s) k) (derivedParams (inputs s)) \<and>
         hd (solverTrace (stageStart (inputs s) k)
               (stagePrior (reactorStages (runCalculation s)) k)
               (stageStart (inputs s) k) (derivedParams (inputs s))) =
           stageStart (inputs s) k + 100 \<and>
         eqTemp (reactorStages (runCalculation s) ! k) =
           (newtonUpdate (derivedParams (inputs s))
              (stagePrior (reactorStages (runCalculation s)) k) (stageStart (inputs s) k)
            ^^ iterations (reactorStages (runCalculation s) ! k))
             (stageStart (inputs s) k + 100)"
proof -
  note call = stage_is_solver_call [OF assms]
  show ?thesis
    using solve_iterate [of "stageStart (inputs s) k"
        "stagePrior (reactorStages (runCalculation s)) k" "stageStart (inputs s) k"
        "derivedParams (inputs s)"]
      solverTrace_solver(4) [of "stageStart (inputs s) k"
        "stagePrior (reactorStages (runCalculation s)) k" "stageStart (inputs s) k"
        "derivedParams (inputs s)"]
    unfolding call [symmetric] using call by simp
qed

theorem stage_solver_first_temperature_witness:
  "Ca (inputs initialState) = Cb (inputs initialState) \<and>
   0 < length (reactorStages (runCalculation initialState)) \<and>
   reactorStages (runCalculation initialState) ! 0 =
     solveForIntersection 300 0 300 (derivedParams defaultInputs) \<and>
   hd (solverTrace 300 0 300 (derivedParams defaultInputs)) = 300 + 100"
proof -
  have ok: "Ca (inputs initialState) = Cb (inputs initialState)"
    by (simp add: initialState_def defaultInputs_def)
  have len: "0 < length (reactorStages (runCalculation initialState))"
    using runCalculation_valid(3) [OF ok] stageRun_invariant(3) [of "inputs initialState"]
    by (cases "fst (stageRun (inputs initialState))") simp_all
  have v: "stageStart (inputs initialState) 0 = 300"
    "stagePrior (reactorStages (runCalculation initialState)) 0 = 0"
    "inputs initialState = defaultInputs"
    by (simp_all add: stageStart_def stagePrior_def initialState_def defaultInputs_def)
  have t0: "stageStart defaultInputs 0 = 300"
    by (simp add: stageStart_def defaultInputs_def)
  from stage_solver_first_temperature [OF ok len] ok len show ?thesis
    unfolding v t0 by simp
qed

text \<open>
  C3, as amended. With equal, non-negative heat capacities, a stage after the first
  whose solver stopped before the cap of 50 iterations has a conversion above the
  previous stage's conversion minus the tolerance 0.0001.
\<close>

theorem conversion_chain_within_tolerance:
  assumes "Ca (inputs s) = Cb (inputs s)" and "0 \<le> Ca (inputs s)"
    and "Suc i < length (reactorStages (runCalculation s))"
    and "iterations (reactorStages (runCalculation s) ! Suc i) < 50"
  shows "conversion (reactorStages (runCalculation s) ! i) - 0.0001 <
         conversion (reactorStages (runCalculation s) ! Suc i)"
proof -
  let ?rs = "fst (stageRun (inputs s))"
  let ?p = "derivedParams (inputs s)"
  let ?c = "coolingTemp (inputs s)"
  have rs: "reactorStages (runCalculation s) = ?rs"
    by (rule runCalculation_valid(3) [OF assms(1)])
  have "chained ?p ?c ?rs"
    by (rule stageRun_invariant(1))
  with assms(3) have step: "?rs ! Suc i = solveForIntersection ?c (conversion (?rs ! i)) ?c ?p"
    unfolding rs chained_def by blast
  have "0 \<le> heatCapacity ?p"
    using assms(2) by (simp add: derivedParams_def)
  moreover have "iterations (solveForIntersection ?c (conversion (?rs ! i)) ?c ?p) < ITER_MAX"
    using assms(4) unfolding rs step by (simp add: ITER_MAX_def)
  ultimately have "conversion (?rs ! i) - TOLERANCE <
      conversion (solveForIntersection ?c (conversion (?rs ! i)) ?c ?p)"
    by (rule solve_converged_gain)
  then show ?thesis
    unfolding rs step [symmetric] by (simp add: TOLERANCE_def)
qed

subsection \<open>A run whose second stage converges next to the cooling temperature\<close>

text \<open>
  The inputs \<open>mildInputs\<close>: \<open>Ha = 0\<close>, \<open>Hb = -10\<close>, \<open>Ca = Cb = 0.05\<close>, \<open>Ke = 1\<close>, feed
  and cooling temperature 198 K. The energy-balance line has the slope \<open>1/200\<close>. The
  first stage starts at 298 K, where the thermodynamic conversion is exactly \<open>1/2\<close> and
  equals the energy-balance conversion, so it stops at once. The second stage starts
  at 298 K again with the objective \<open>X t - 1/2 - (t - 198) / 200\<close>. Between 198 K and
  298 K the equilibrium curve falls by less than \<open>1/25000\<close> per kelvin
  (\<open>mild_curve_lipschitz\<close>), so the finite-difference derivative is within \<open>1/25000\<close>
  of \<open>- 1/200\<close>, each Newton step stays between 198 K and 298 K, is neither damped nor
  clamped, and divides the absolute value of the objective by at least 125
  (\<open>mild_step\<close>). The stage therefore stops after at most two iterations, at a
  temperature below 199 K.
\<close>

lemma mild_objective:
  "objectiveFunction mildParams c s t =
     computeThermodynamicConversion t 1 (- 10) - (c + (t - s) / 200)"
  by (simp add: objectiveFunction_def mildParams_def computeEnergyBalanceConversion_def)

lemma mild_curve_mono:
  assumes "0 < a" and "a \<le> b"
  shows "computeThermodynamicConversion b 1 (- 10) \<le> computeThermodynamicConversion a 1 (- 10)"
proof (cases "a = b")
  case True
  then show ?thesis by simp
next
  case False
  with assms have "a < b" by simp
  then have "computeThermodynamicConversion b 1 (- 10) < computeThermodynamicConversion a 1 (- 10)"
    using assms(1) by (intro conversion_decreasing) simp_all
  then show ?thesis by simp
qed

lemma mild_exponent_gap:
  fixes a b :: real
  assumes "198 \<le> a" and "a \<le> b" and "b \<le> a + 101"
  shows "0 \<le> (- 10 / R_VALUE) * (1 / 298 - 1 / a) - (- 10 / R_VALUE) * (1 / 298 - 1 / b)"
    and "(- 10 / R_VALUE) * (1 / 298 - 1 / a) - (- 10 / R_VALUE) * (1 / 298 - 1 / b) \<le> (b - a) / 7700"
    and "(- 10 / R_VALUE) * (1 / 298 - 1 / a) - (- 10 / R_VALUE) * (1 / 298 - 1 / b) \<le> 1 / 50"
proof -
  let ?y = "(- 10 / R_VALUE) * (1 / 298 - 1 / a) - (- 10 / R_VALUE) * (1 / 298 - 1 / b)"
  have pos: "0 < a" "0 < b" using assms by simp_all
  have y: "?y = (10000 / 1987) * ((b - a) / (a * b))"
    using pos by (simp add: R_VALUE_def field_simps)
  show "0 \<le> ?y"
    unfolding y using pos assms(2) by simp
  have "198 * 198 \<le> a * b"
    using assms(1,2) by (intro mult_mono) simp_all
  then have "(b - a) / (a * b) \<le> (b - a) / (198 * 198)"
    using assms(2) by (intro divide_left_mono) simp_all
  then have "?y \<le> (10000 / 1987) * ((b - a) / (198 * 198))"
    unfolding y by (intro mult_left_mono) simp_all
  also have "\<dots> \<le> (b - a) / 7700"
    using assms(2) by (simp add: field_simps)
  finally show le: "?y \<le> (b - a) / 7700" .
  also have "\<dots> \<le> 1 / 50"
    using assms(3) by simp
  finally show "?y \<le> 1 / 50" .
qed

lemma ratio_gap:
  fixes ka kb y :: real
  assumes "0 < kb" and "0 \<le> y" and "ka = kb * ey" and "1 \<le> ey" and "ey \<le> 1 + (51 / 50) * y"
  shows "ka / (1 + ka) - kb / (1 + kb) \<le> (51 / 200) * y"
proof -
  have ka: "kb \<le> ka" using assms(1,3,4) by simp
  then have kapos: "0 < ka" using assms(1) by simp
  have "ka - kb = kb * (ey - 1)" using assms(3) by (simp add: algebra_simps)
  also have "\<dots> \<le> kb * ((51 / 50) * y)"
    using assms(1,5) by (intro mult_left_mono) simp_all
  finally have num: "ka - kb \<le> kb * ((51 / 50) * y)" .
  have "4 * kb \<le> (1 + kb) * (1 + kb)"
    using zero_le_square [of "1 - kb"] by (simp add: algebra_simps)
  also have "\<dots> \<le> (1 + ka) * (1 + kb)"
    using ka assms(1) by (intro mult_right_mono) simp_all
  finally have den: "4 * kb \<le> (1 + ka) * (1 + kb)" .
  have "kb * ((51 / 50) * y) = ((51 / 200) * y) * (4 * kb)" by simp
  also have "\<dots> \<le> ((51 / 200) * y) * ((1 + ka) * (1 + kb))"
    using den assms(2) by (intro mult_left_mono) simp_all
  finally have "ka - kb \<le> ((51 / 200) * y) * ((1 + ka) * (1 + kb))"
    using num by simp
  moreover have "0 < (1 + ka) * (1 + kb)" using kapos assms(1) by simp
  ultimately have "(ka - kb) / ((1 + ka) * (1 + kb)) \<le> (51 / 200) * y"
    by (simp add: pos_divide_le_eq)
  moreover have "ka / (1 + ka) - kb / (1 + kb) = (ka - kb) / ((1 + ka) * (1 + kb))"
    using kapos assms(1) by (simp add: field_simps)
  ultimately show ?thesis by simp
qed

lemma mild_curve_lipschitz:
  assumes "198 \<le> a" and "a \<le> b" and "b \<le> a + 101"
  shows "computeThermodynamicConversion a 1 (- 10) - computeThermodynamicConversion b 1 (- 10)
           \<le> (b - a) / 25000"
proof -
  define xa where "xa = (- 10 / R_VALUE) * (1 / 298 - 1 / a)"
  define xb where "xb = (- 10 / R_VALUE) * (1 / 298 - 1 / b)"
  define y where "y = xa - xb"
  have y0: "0 \<le> y" and y1: "y \<le> (b - a) / 7700" and y2: "y \<le> 1 / 50"
    unfolding y_def xa_def xb_def by (rule mild_exponent_gap [OF assms])+
  have "y \<le> 1" using y2 by linarith
  with y0 have "exp y \<le> 1 + y + y\<^sup>2" by (rule exp_bound)
  moreover have "y * y \<le> (1 / 50) * y"
    using y2 y0 by (rule mult_right_mono)
  ultimately have up: "exp y \<le> 1 + (51 / 50) * y"
    unfolding power2_eq_square by linarith
  have low: "1 \<le> exp y" using y0 by simp
  have "xa = xb + y" by (simp add: y_def)
  then have split: "exp xa = exp xb * exp y"
    by (simp add: exp_add)
  have "exp xa / (1 + exp xa) - exp xb / (1 + exp xb) \<le> (51 / 200) * y"
    by (rule ratio_gap [OF _ y0 split low up]) simp
  also have "\<dots> \<le> (51 / 200) * ((b - a) / 7700)"
    using y1 by (intro mult_left_mono) simp_all
  also have "\<dots> \<le> (b - a) / 25000"
    using assms(2) by simp
  finally show ?thesis
    by (simp add: computeThermodynamicConversion_def computeK_def Let_def xa_def xb_def)
qed

lemma mild_curve_reference: "computeThermodynamicConversion 298 1 (- 10) = 1 / 2"
  by (simp add: conversion_at_reference)

lemma mild_curve_band:
  assumes "198 \<le> t" and "t \<le> 298"
  shows "1 / 2 \<le> computeThermodynamicConversion t 1 (- 10)"
    and "computeThermodynamicConversion t 1 (- 10) \<le> 1 / 2 + (298 - t) / 25000"
proof -
  show "1 / 2 \<le> computeThermodynamicConversion t 1 (- 10)"
    using mild_curve_mono [of t 298] assms by (simp add: mild_curve_reference)
  have "computeThermodynamicConversion t 1 (- 10) - computeThermodynamicConversion 298 1 (- 10)
          \<le> (298 - t) / 25000"
    using assms by (intro mild_curve_lipschitz) simp_all
  then show "computeThermodynamicConversion t 1 (- 10) \<le> 1 / 2 + (298 - t) / 25000"
    unfolding mild_curve_reference by linarith
qed

lemma mild_derivative:
  assumes "198 \<le> t"
  shows "\<exists>e. 0 \<le> e \<and> e \<le> 1 / 25000 \<and> calculateDerivative mildParams c s t = - (1 / 200 + e)"
proof -
  define e where "e = 100 * (computeThermodynamicConversion t 1 (- 10) -
                            computeThermodynamicConversion (t + 0.01) 1 (- 10))"
  have "0 \<le> e"
    unfolding e_def using mild_curve_mono [of t "t + 0.01"] assms by simp
  moreover have "e \<le> 1 / 25000"
    unfolding e_def using mild_curve_lipschitz [of t "t + 0.01"] assms by simp
  moreover have "calculateDerivative mildParams c s t = - (1 / 200 + e)"
    unfolding e_def by (simp add: calculateDerivative_def Let_def mild_objective field_simps)
  ultimately show ?thesis by blast
qed

lemma mild_step:
  assumes lo: "198 \<le> t" and hi: "t \<le> 298"
  shows "198 \<le> newtonUpdate mildParams (1 / 2) 198 t"
    and "newtonUpdate mildParams (1 / 2) 198 t \<le> 298"
    and "\<bar>objectiveFunction mildParams (1 / 2) 198 (newtonUpdate mildParams (1 / 2) 198 t)\<bar>
           \<le> \<bar>objectiveFunction mildParams (1 / 2) 198 t\<bar> / 125"
proof -
  define g where "g = (\<lambda>u. computeThermodynamicConversion u 1 (- 10))"
  define F where "F = objectiveFunction mildParams (1 / 2) 198 t"
  from mild_derivative [OF lo, of "1 / 2" 198] obtain e where
    e: "0 \<le> e" "e \<le> 1 / 25000" and
    D: "calculateDerivative mildParams (1 / 2) 198 t = - (1 / 200 + e)"
    by blast
  define w where "w = 1 / 200 + e"
  define d where "d = F / w"
  have w: "1 / 200 \<le> w" "0 < w" using e by (simp_all add: w_def)
  have F: "F = g t - 1 / 2 - (t - 198) / 200"
    by (simp add: F_def g_def mild_objective)
  have band: "1 / 2 \<le> g t" "g t \<le> 1 / 2 + (298 - t) / 25000"
    unfolding g_def by (rule mild_curve_band [OF lo hi])+
  have dw: "d * w = F" using w by (simp add: d_def)
  have Fd: "F = d / 200 + d * e"
    using dw by (simp add: w_def algebra_simps)
  \<comment> \<open>the step stays between the starting temperature and the first guess\<close>
  have step_lo: "198 \<le> t + d" and step_hi: "t + d \<le> 298" and step_len: "\<bar>d\<bar> \<le> 100"
  proof -
    have "198 \<le> t + d \<and> t + d \<le> 298 \<and> \<bar>d\<bar> \<le> 100"
    proof (cases "0 \<le> d")
      case True
      then have "0 \<le> d * e" using e(1) by simp
      with Fd have "d \<le> 200 * F" by linarith
      with True F band lo hi have "198 \<le> t + d" "t + d \<le> 298" "d \<le> 100" "- 100 \<le> d"
        by argo+
      then show ?thesis by (simp add: abs_le_iff)
    next
      case False
      then have "d * e \<le> 0" using e(1) by (simp add: mult_nonpos_nonneg)
      with Fd have "200 * F \<le> d" by linarith
      with False F band lo hi have "198 \<le> t + d" "t + d \<le> 298" "d \<le> 100" "- 100 \<le> d"
        by argo+
      then show ?thesis by (simp add: abs_le_iff)
    qed
    then show "198 \<le> t + d" and "t + d \<le> 298" and "\<bar>d\<bar> \<le> 100" by simp_all
  qed
  have next_eq: "t - F / (- (1 / 200 + e)) = t + d"
    unfolding d_def w_def divide_minus_right by simp
  have half_eq: "\<bar>t + d - t\<bar> = \<bar>d\<bar>" by simp
  have flat: "\<not> \<bar>- (1 / 200 + e)\<bar> < 1 / 10 ^ 10"
    using e(1) by simp
  have upd: "newtonUpdate mildParams (1 / 2) 198 t = t + d"
    unfolding newtonUpdate_def Let_def D F_def [symmetric] next_eq half_eq
    using flat step_lo step_len by simp
  show "198 \<le> newtonUpdate mildParams (1 / 2) 198 t"
    and "newtonUpdate mildParams (1 / 2) 198 t \<le> 298"
    unfolding upd by (rule step_lo, rule step_hi)
  \<comment> \<open>the objective shrinks\<close>
  have "objectiveFunction mildParams (1 / 2) 198 (t + d) = g (t + d) - 1 / 2 - (t + d - 198) / 200"
    by (simp add: g_def mild_objective)
  with Fd F have val: "objectiveFunction mildParams (1 / 2) 198 (t + d) = d * e + (g (t + d) - g t)"
    by argo
  have de: "\<bar>d * e\<bar> \<le> \<bar>d\<bar> / 25000"
  proof -
    have "\<bar>d * e\<bar> = \<bar>d\<bar> * e" using e(1) by (simp add: abs_mult)
    also have "\<dots> \<le> \<bar>d\<bar> * (1 / 25000)" using e(2) by (intro mult_left_mono) simp_all
    finally show ?thesis by simp
  qed
  have small: "\<bar>d * e + (g (t + d) - g t)\<bar> \<le> \<bar>d\<bar> / 25000"
  proof (cases "0 \<le> d")
    case True
    then have "0 \<le> d * e" using e(1) by simp
    moreover have "g (t + d) \<le> g t"
      unfolding g_def using mild_curve_mono [of t "t + d"] lo True by simp
    moreover have "g t - g (t + d) \<le> d / 25000"
      unfolding g_def using mild_curve_lipschitz [of t "t + d"] lo True step_len by simp
    ultimately show ?thesis using de True by linarith
  next
    case False
    then have neg: "d \<le> 0" by simp
    then have "d * e \<le> 0" using e(1) by (simp add: mult_nonpos_nonneg)
    moreover have "g t \<le> g (t + d)"
      unfolding g_def using mild_curve_mono [of "t + d" t] step_lo neg by simp
    moreover have "g (t + d) - g t \<le> (- d) / 25000"
      unfolding g_def using mild_curve_lipschitz [of "t + d" t] step_lo neg step_len by simp
    ultimately show ?thesis using de neg by linarith
  qed
  have "\<bar>d\<bar> \<le> 200 * \<bar>F\<bar>"
  proof -
    have "\<bar>d * w\<bar> = \<bar>d\<bar> * \<bar>w\<bar>" by (rule abs_mult)
    then have "\<bar>F\<bar> = \<bar>d\<bar> * w" using w(2) unfolding dw by simp
    moreover have "\<bar>d\<bar> * (1 / 200) \<le> \<bar>d\<bar> * w" using w by (intro mult_left_mono) simp_all
    ultimately show ?thesis by simp
  qed
  with small show "\<bar>objectiveFunction mildParams (1 / 2) 198 (newtonUpdate mildParams (1 / 2) 198 t)\<bar>
           \<le> \<bar>objectiveFunction mildParams (1 / 2) 198 t\<bar> / 125"
    unfolding upd val F_def [symmetric] by simp
qed

lemma mild_iterates:
  "198 \<le> (newtonUpdate mildParams (1 / 2) 198 ^^ n) 298 \<and>
   (newtonUpdate mildParams (1 / 2) 198 ^^ n) 298 \<le> 298 \<and>
   \<bar>objectiveFunction mildParams (1 / 2) 198 ((newtonUpdate mildParams (1 / 2) 198 ^^ n) 298)\<bar>
     \<le> (1 / 2) / 125 ^ n"
proof (induction n)
  case 0
  show ?case by (simp add: mild_objective mild_curve_reference)
next
  case (Suc n)
  let ?u = "(newtonUpdate mildParams (1 / 2) 198 ^^ n) 298"
  from Suc have lo: "198 \<le> ?u" and hi: "?u \<le> 298"
    and f: "\<bar>objectiveFunction mildParams (1 / 2) 198 ?u\<bar> \<le> (1 / 2) / 125 ^ n"
    by simp_all
  note step = mild_step [OF lo hi]
  have "\<bar>objectiveFunction mildParams (1 / 2) 198 (newtonUpdate mildParams (1 / 2) 198 ?u)\<bar>
          \<le> \<bar>objectiveFunction mildParams (1 / 2) 198 ?u\<bar> / 125"
    by (rule step(3))
  also have "\<dots> \<le> ((1 / 2) / 125 ^ n) / 125"
    using f by (intro divide_right_mono) simp_all
  finally show ?case
    using step(1,2) by simp
qed

lemma mild_second_stage:
  "iterations (solveForIntersection 198 (1 / 2) 198 mildParams) \<le> 2"
  "198 \<le> eqTemp (solveForIntersection 198 (1 / 2) 198 mildParams)"
  "eqTemp (solveForIntersection 198 (1 / 2) 198 mildParams) < 199"
  "1 / 2 \<le> conversion (solveForIntersection 198 (1 / 2) 198 mildParams)"
proof -
  let ?f = "objectiveFunction mildParams (1 / 2) 198"
  let ?u = "newtonUpdate mildParams (1 / 2) 198"
  let ?r = "solveForIntersection 198 (1 / 2) 198 mildParams"
  from solveLoop_iterates [of mildParams "1 / 2" 198 "198 + 100" 0] obtain k where
    k: "solveLoop mildParams (1 / 2) 198 (198 + 100) 0 = ((?u ^^ k) (198 + 100), 0 + k)"
       "\<forall>j<k. \<not> \<bar>?f ((?u ^^ j) (198 + 100))\<bar> < TOLERANCE"
       "0 + k < ITER_MAX \<longrightarrow> \<bar>?f ((?u ^^ k) (198 + 100))\<bar> < TOLERANCE"
    by blast
  have two: "\<bar>?f ((?u ^^ 2) 298)\<bar> < TOLERANCE"
    using mild_iterates [of 2] by (simp add: TOLERANCE_def)
  have k2: "k \<le> 2"
  proof (rule ccontr)
    assume "\<not> k \<le> 2"
    then have "2 < k" by simp
    with k(2) have "\<not> \<bar>?f ((?u ^^ 2) (198 + 100))\<bar> < TOLERANCE" by blast
    with two show False by simp
  qed
  have it: "iterations ?r = k" and t: "eqTemp ?r = (?u ^^ k) 298"
    using k(1) by (simp_all add: solve_fields)
  show "iterations ?r \<le> 2" using it k2 by simp
  have conv: "\<bar>?f (eqTemp ?r)\<bar> < TOLERANCE"
    using k(3) k2 t by (simp add: ITER_MAX_def)
  from mild_iterates [of k] have lo: "198 \<le> eqTemp ?r" and hi: "eqTemp ?r \<le> 298"
    unfolding t by simp_all
  show "198 \<le> eqTemp ?r" by (rule lo)
  note band = mild_curve_band [OF lo hi]
  have "?f (eqTemp ?r) = computeThermodynamicConversion (eqTemp ?r) 1 (- 10)
          - 1 / 2 - (eqTemp ?r - 198) / 200"
    by (simp add: mild_objective)
  moreover have "- (1 / 10000) < ?f (eqTemp ?r)"
    using conv by (simp add: TOLERANCE_def abs_less_iff)
  ultimately show "eqTemp ?r < 199"
    using band(2) lo by argo
  have "conversion ?r = computeThermodynamicConversion (eqTemp ?r) 1 (- 10)"
    using solve_on_curve [of 198 "1 / 2" 198 mildParams] by (simp add: mildParams_def)
  with band(1) show "1 / 2 \<le> conversion ?r" by simp
qed

lemma derivedParams_mild: "derivedParams mildInputs = mildParams"
  by (simp add: derivedParams_def mildInputs_def mildParams_def)

lemma mild_first_stage:
  "solveForIntersection 198 0 198 mildParams = \<lparr>eqTemp = 298, conversion = 1 / 2, iterations = 0\<rparr>"
proof -
  have "objectiveFunction mildParams 0 198 (198 + 100) = 0"
    by (simp add: mild_objective mild_curve_reference)
  then have "solveLoop mildParams 0 198 (198 + 100) 0 = (198 + 100, 0)"
    by (intro solveLoop_break) (simp_all add: ITER_MAX_def TOLERANCE_def)
  then show ?thesis
    by (simp add: solveForIntersection_def mildParams_def conversion_at_reference)
qed

lemma mild_run:
  "Ca (inputs (stateWith mildInputs)) = Cb (inputs (stateWith mildInputs))"
  "0 \<le> Ca (inputs (stateWith mildInputs))"
  "Suc 0 < length (reactorStages (runCalculation (stateWith mildInputs)))"
  "reactorStages (runCalculation (stateWith mildInputs)) ! 0 =
     solveForIntersection 198 0 198 mildParams"
  "reactorStages (runCalculation (stateWith mildInputs)) ! Suc 0 =
     solveForIntersection 198 (1 / 2) 198 mildParams"
proof -
  show ok: "Ca (inputs (stateWith mildInputs)) = Cb (inputs (stateWith mildInputs))"
    and "0 \<le> Ca (inputs (stateWith mildInputs))"
    by (simp_all add: stateWith_def mildInputs_def)
  have i: "inputs (stateWith mildInputs) = mildInputs"
    by (simp add: stateWith_def)
  have v: "T0 mildInputs = 198" "coolingTemp mildInputs = 198" "targetConversion mildInputs = 0.8"
    by (simp_all add: mildInputs_def)
  have lt: "conversion (solveForIntersection (T0 mildInputs) 0 (T0 mildInputs)
              (derivedParams mildInputs)) < targetConversion mildInputs"
    unfolding derivedParams_mild v mild_first_stage by simp
  have rs: "reactorStages (runCalculation (stateWith mildInputs)) = fst (stageRun mildInputs)"
    using runCalculation_valid(3) [OF ok] by (simp add: i)
  show "Suc 0 < length (reactorStages (runCalculation (stateWith mildInputs)))"
    unfolding rs using stageRun_second(1) [OF lt] by simp
  show "reactorStages (runCalculation (stateWith mildInputs)) ! 0 =
     solveForIntersection 198 0 198 mildParams"
    unfolding rs using stageRun_second(2) [OF lt] by (simp add: derivedParams_mild v)
  show "reactorStages (runCalculation (stateWith mildInputs)) ! Suc 0 =
     solveForIntersection 198 (1 / 2) 198 mildParams"
    unfolding rs using stageRun_second(3) [OF lt]
    by (simp add: derivedParams_mild v mild_first_stage)
qed

text \<open>
  An instance of the amended C3 on this run: the second stage stops before the cap,
  the first stage has the conversion \<open>1/2\<close>, and the second stage's conversion is
  above \<open>1/2 - 0.0001\<close>.
\<close>

theorem conversion_chain_within_tolerance_witness:
  "Ca (inputs (stateWith mildInputs)) = Cb (inputs (stateWith mildInputs)) \<and>
   0 \<le> Ca (inputs (stateWith mildInputs)) \<and>
   Suc 0 < length (reactorStages (runCalculation (stateWith mildInputs))) \<and>
   iterations (reactorStages (runCalculation (stateWith mildInputs)) ! Suc 0) < 50 \<and>
   conversion (reactorStages (runCalculation (stateWith mildInputs)) ! 0) = 1 / 2 \<and>
   conversion (reactorStages (runCalculation (stateWith mildInputs)) ! 0) - 0.0001 <
     conversion (reactorStages (runCalculation (stateWith mildInputs)) ! Suc 0)"
proof -
  have it: "iterations (reactorStages (runCalculation (stateWith mildInputs)) ! Suc 0) < 50"
    unfolding mild_run(5) using mild_second_stage(1) by simp
  have first: "conversion (reactorStages (runCalculation (stateWith mildInputs)) ! 0) = 1 / 2"
    unfolding mild_run(4) mild_first_stage by simp
  from conversion_chain_within_tolerance [OF mild_run(1,2,3) it] mild_run(1,2,3) it first
  show ?thesis by blast
qed


subsection \<open>A run whose second stage loses conversion\<close>

text \<open>
  C3 as stated fails for a cooling temperature above the first stage's
  equilibrium temperature. With feed at 198 K, base constant 1, enthalpy change
  \<open>-200\<close> and heat capacity 1, the first stage converges at once at 298 K with
  conversion \<open>1/2\<close>; the second stage, cooled to 350 K, never goes below 350 K, where
  the thermodynamic conversion is below \<open>1/2\<close>.
\<close>

lemma derivedParams_hot: "derivedParams hotCoolingInputs = hotParams"
  by (simp add: derivedParams_def hotCoolingInputs_def hotParams_def)

lemma hot_first_stage:
  "solveForIntersection 198 0 198 hotParams = \<lparr>eqTemp = 298, conversion = 1 / 2, iterations = 0\<rparr>"
proof -
  have "objectiveFunction hotParams 0 198 (198 + 100) = 0"
    by (simp add: objectiveFunction_def hotParams_def conversion_at_reference
        computeEnergyBalanceConversion_def)
  then have "solveLoop hotParams 0 198 (198 + 100) 0 = (198 + 100, 0)"
    by (intro solveLoop_break) (simp_all add: ITER_MAX_def TOLERANCE_def)
  then show ?thesis
    by (simp add: solveForIntersection_def hotParams_def conversion_at_reference)
qed

lemma hot_second_stage:
  "conversion (solveForIntersection 350 (1 / 2) 350 hotParams) < 1 / 2"
proof -
  let ?r = "solveForIntersection 350 (1 / 2) 350 hotParams"
  have "350 \<le> eqTemp ?r" by (rule solve_clamped) simp
  then have "298 < eqTemp ?r" by simp
  then have "computeThermodynamicConversion (eqTemp ?r) 1 (- 200) <
             computeThermodynamicConversion 298 1 (- 200)"
    by (intro conversion_decreasing) simp_all
  moreover have "baseK hotParams = 1" "deltaH hotParams = - 200"
    by (simp_all add: hotParams_def)
  ultimately show ?thesis
    using solve_on_curve [of 350 "1 / 2" 350 hotParams]
    by (simp add: conversion_at_reference)
qed

theorem conversion_chain_counterexample:
  "1 < length (reactorStages (runCalculation (stateWith hotCoolingInputs))) \<and>
   conversion (reactorStages (runCalculation (stateWith hotCoolingInputs)) ! 1) <
   conversion (reactorStages (runCalculation (stateWith hotCoolingInputs)) ! 0)"
proof -
  have ok: "Ca (inputs (stateWith hotCoolingInputs)) = Cb (inputs (stateWith hotCoolingInputs))"
    by (simp add: stateWith_def hotCoolingInputs_def)
  have i: "inputs (stateWith hotCoolingInputs) = hotCoolingInputs"
    by (simp add: stateWith_def)
  have v: "T0 hotCoolingInputs = 198" "coolingTemp hotCoolingInputs = 350"
    "targetConversion hotCoolingInputs = 0.8"
    by (simp_all add: hotCoolingInputs_def)
  have lt: "conversion (solveForIntersection (T0 hotCoolingInputs) 0 (T0 hotCoolingInputs)
              (derivedParams hotCoolingInputs)) < targetConversion hotCoolingInputs"
    unfolding derivedParams_hot v hot_first_stage by simp
  have rs: "reactorStages (runCalculation (stateWith hotCoolingInputs)) =
            fst (stageRun hotCoolingInputs)"
    using runCalculation_valid(3) [OF ok] by (simp add: i)
  show ?thesis
    unfolding rs using stageRun_second [OF lt] hot_second_stage
    by (simp add: derivedParams_hot v hot_first_stage)
qed

end
